theory Spec2Isabelle
  imports Main "HOL-Library.Multiset"
begin

section \<open>Data model of \<open>neurox/app.py\<close>\<close>

text \<open>
  The poll state of \<open>NeuroxApp\<close>: the two attributes set in \<open>__init__\<close>
  (\<open>self.iteration = 0\<close>, \<open>self.update_cycle_len = 1\<close>). Python integers are
  unbounded, hence \<open>int\<close>.
\<close>

record app_state =
  iteration :: int
  update_cycle_len :: int

definition MAX_UPDATE_CYCLE_LEN :: int where
  "MAX_UPDATE_CYCLE_LEN = 30"

definition init :: app_state where
  "init = \<lparr>iteration = 0, update_cycle_len = 1\<rparr>"

text \<open>\<open>set_active_mode\<close> assigns \<open>update_cycle_len\<close> only; \<open>iteration\<close> is left alone.\<close>

definition set_active_mode :: "app_state \<Rightarrow> app_state" where
  "set_active_mode s = s\<lparr>update_cycle_len := 1\<rparr>"

text \<open>
  Exceptions, by the classes the handlers of \<open>update\<close> tell apart.
  \<open>ValueError\<close> carries \<open>str(e)\<close>. \<open>AuthenticationError\<close> is the class of the
  external client library (an \<open>Exception\<close> that is not a \<open>ValueError\<close>).
  \<open>TypeError\<close> and \<open>OtherException\<close> are further subclasses of \<open>Exception\<close>;
  \<open>NonException\<close> stands for a \<open>BaseException\<close> outside \<open>Exception\<close>
  (\<open>KeyboardInterrupt\<close>, \<open>SystemExit\<close>), which \<open>except Exception\<close> lets through.
\<close>

datatype exn =
    ValueError string
  | AuthenticationError
  | TypeError
  | OtherException
  | NonException

text \<open>
  Modelled from the spec: the classes \<open>StatusUpdate\<close> and \<open>NewJobUpdate\<close> of
  \<open>neurox.client\<close> (not part of the sources at hand): job id, status and an optional
  reason, two unrelated classes.
\<close>

datatype update =
    StatusUpdate string string "string option"
  | NewJobUpdate string string "string option"

text \<open>
  The attributes of a \<open>JobDescription\<close> that the menu reads: \<open>job.id\<close>,
  \<open>job.description\<close>, \<open>job.status\<close> and \<open>job.history.created_at\<close>.
\<close>

record job =
  job_id :: string
  description :: "string option"
  status :: string
  created_at :: string

text \<open>A preset is the dictionary with the keys \<open>'id'\<close>, \<open>'name'\<close>, \<open>'job_params'\<close>.\<close>

record preset =
  preset_id :: string
  name :: string
  job_params :: string

text \<open>
  What \<open>datetime.fromisoformat\<close> returns: a naive datetime (wall-clock microseconds)
  or an aware one (microseconds of the UTC instant). Two naive or two aware values are
  ordered by that number; ordering a naive against an aware one raises \<open>TypeError\<close>.
\<close>

datatype datetime = Naive int | Aware int

fun is_naive :: "datetime \<Rightarrow> bool" where
  "is_naive (Naive _) = True"
| "is_naive (Aware _) = False"

fun ordinal :: "datetime \<Rightarrow> int" where
  "ordinal (Naive n) = n"
| "ordinal (Aware n) = n"

text \<open>The menu as the sequence of items added to it, each with its sub-items.\<close>

datatype menu_item =
    Item string "menu_item list"
  | JobItem string job
  | Separator

text \<open>
  What one tick does to the outside, in order: the call \<open>self.client.update()\<close>, the
  call \<open>self.show_updates(updates)\<close>, each call of \<open>rumps.notification\<close> with its three
  arguments, and the call \<open>self.render_menu()\<close> with its outcome.
\<close>

datatype event =
    ClientUpdate
  | ShowUpdates "update list"
  | Notification string string string
  | RenderMenu "exn + menu_item list"

text \<open>
  The collaborators during one tick: the outcome of \<open>self.client.update()\<close>, of each
  \<open>rumps.notification(title, subtitle, message)\<close> (\<open>Some e\<close> when it raises), of
  \<open>self.client.get_active_jobs()\<close>, the function \<open>datetime.fromisoformat\<close>, and the
  stored \<open>settings['presets']\<close>.
\<close>

record env =
  client_update :: "exn + update list"
  notification :: "string \<Rightarrow> string \<Rightarrow> string \<Rightarrow> exn option"
  get_active_jobs :: "exn + job list"
  fromisoformat :: "string \<Rightarrow> exn + datetime"
  presets :: "preset list"

record tick_result =
  state :: app_state
  events :: "event list"
  raised :: "exn option"

section \<open>Rendering the menu\<close>

definition ABOUT :: string where
  "ABOUT = ''NeuroX (version 1.0) by Rebryk''"

text \<open>\<open>job.description if job.description else job.id\<close>: \<open>None\<close> and \<open>''\<close> are falsy.\<close>

definition job_name :: "job \<Rightarrow> string" where
  "job_name j = (case description j of
       None \<Rightarrow> job_id j
     | Some d \<Rightarrow> if d = [] then job_id j else d)"

text \<open>
  \<open>render_job_item\<close>: the item of a job, with its title and the job its sub-items and
  actions are built from.
\<close>

definition render_job_item :: "job \<Rightarrow> menu_item" where
  "render_job_item j = JobItem (job_name j) j"

definition render_preset_item :: "preset \<Rightarrow> menu_item" where
  "render_preset_item p = Item (name p)
     [Item ''Submit...'' [], Item ''Rename...'' [], Item ''Change job...'' [], Item ''Remove'' []]"

definition render_presets_item :: "env \<Rightarrow> menu_item" where
  "render_presets_item e = Item ''Presets''
     (map render_preset_item (presets e)
      @ (if length (presets e) = 0 then [Item ''No presets'' []] else [])
      @ [Separator, Item ''Create preset...'' []])"

definition render_settings_item :: menu_item where
  "render_settings_item = Item ''Settings''
     [Item ''Username...'' [], Item ''Token...'' [], Item ''API URL...'' [],
      Item ''RSA key path...'' []]"

text \<open>
  The key function of \<open>sorted\<close> is applied to every job, in order, before any
  comparison: the first \<open>fromisoformat\<close> that raises ends the call.
\<close>

fun sort_keys :: "(string \<Rightarrow> exn + datetime) \<Rightarrow> job list \<Rightarrow> exn + datetime list" where
  "sort_keys f [] = Inr []"
| "sort_keys f (j # js) =
     (case f (created_at j) of
        Inl e \<Rightarrow> Inl e
      | Inr k \<Rightarrow> (case sort_keys f js of Inl e \<Rightarrow> Inl e | Inr ks \<Rightarrow> Inr (k # ks)))"

text \<open>
  \<open>sorted(jobs, key=...)\<close>: a stable sort by the keys. A list that holds both a naive
  and an aware key cannot be sorted without comparing one against the other, which
  raises \<open>TypeError\<close>.
\<close>

definition sorted_jobs :: "(string \<Rightarrow> exn + datetime) \<Rightarrow> job list \<Rightarrow> exn + job list" where
  "sorted_jobs f js =
     (case sort_keys f js of
        Inl e \<Rightarrow> Inl e
      | Inr ks \<Rightarrow>
          if list_ex is_naive ks \<and> list_ex (\<lambda>k. \<not> is_naive k) ks then Inl TypeError
          else Inr (map snd (sort_key (\<lambda>p. ordinal (fst p)) (zip ks js))))"

text \<open>
  \<open>render_menu\<close> clears the menu and adds the items again, the \<open>Quit\<close> button it
  took from the old menu last. The result is the new menu, or the exception of
  \<open>get_active_jobs\<close> or of \<open>sorted\<close>.
\<close>

definition render_menu :: "env \<Rightarrow> exn + menu_item list" where
  "render_menu e =
     (case get_active_jobs e of
        Inl x \<Rightarrow> Inl x
      | Inr active \<Rightarrow>
          (case sorted_jobs (fromisoformat e) active of
             Inl x \<Rightarrow> Inl x
           | Inr jobs \<Rightarrow> Inr
               ([Item ABOUT [], render_settings_item, Separator]
                @ (if jobs \<noteq> [] then map render_job_item jobs else [Item ''No active jobs'' []])
                @ [Separator, Item ''Create job...'' [], render_presets_item e, Separator,
                   Item ''Quit'' []])))"

section \<open>The tick handler\<close>

text \<open>\<open>f' ({update.reason})' if update.reason else ''\<close>\<close>

definition reason_suffix :: "string option \<Rightarrow> string" where
  "reason_suffix r = (case r of
       None \<Rightarrow> ''''
     | Some t \<Rightarrow> if t = [] then '''' else '' ('' @ t @ '')'')"

fun update_notification :: "update \<Rightarrow> event" where
  "update_notification (StatusUpdate jid st r) =
     Notification ''Job status has changed'' jid (''New status: '' @ st @ reason_suffix r)"
| "update_notification (NewJobUpdate jid st r) =
     Notification ''New job is created'' jid (''Status: '' @ st @ reason_suffix r)"

text \<open>Calling \<open>rumps.notification\<close>: the call is logged, then it returns or raises.\<close>

fun notify :: "env \<Rightarrow> event \<Rightarrow> exn option" where
  "notify e (Notification t s m) = notification e t s m"
| "notify e _ = None"

text \<open>\<open>show_updates\<close>: one notification per update; a raising one ends the loop.\<close>

fun show_updates :: "env \<Rightarrow> update list \<Rightarrow> event list \<times> exn option" where
  "show_updates e [] = ([], None)"
| "show_updates e (u # us) =
     (case notify e (update_notification u) of
        Some x \<Rightarrow> ([update_notification u], Some x)
      | None \<Rightarrow> (case show_updates e us of (evs, r) \<Rightarrow> (update_notification u # evs, r)))"

text \<open>The body of the \<open>try\<close>: \<open>updates = self.client.update(); self.show_updates(updates)\<close>.\<close>

definition try_body :: "env \<Rightarrow> event list \<times> exn option" where
  "try_body e =
     (case client_update e of
        Inl x \<Rightarrow> ([ClientUpdate], Some x)
      | Inr ups \<Rightarrow> (case show_updates e ups of (evs, r) \<Rightarrow> (ClientUpdate # ShowUpdates ups # evs, r)))"

text \<open>
  The three handlers, in the order of the source: \<open>except ValueError\<close>,
  \<open>except AuthenticationError\<close>, \<open>except Exception\<close>. A notification that raises inside
  a handler leaves the \<open>try\<close> statement with that exception.
\<close>

definition auth_notification :: event where
  "auth_notification = Notification ''Failed to get updates'' '''' ''You may be using the wrong token''"

fun handle :: "env \<Rightarrow> exn \<Rightarrow> event list \<times> exn option" where
  "handle e (ValueError msg) =
     ([Notification ''Failed to get updates'' '''' msg],
      notify e (Notification ''Failed to get updates'' '''' msg))"
| "handle e AuthenticationError = ([auth_notification], notify e auth_notification)"
| "handle e TypeError = ([], None)"
| "handle e OtherException = ([], None)"
| "handle e NonException = ([], Some NonException)"

definition try_update :: "env \<Rightarrow> event list \<times> exn option" where
  "try_update e =
     (case try_body e of
        (evs, None) \<Rightarrow> (evs, None)
      | (evs, Some x) \<Rightarrow> (case handle e x of (hevs, r) \<Rightarrow> (evs @ hevs, r)))"

text \<open>
  \<open>update\<close>, one call of the timer callback. The result holds the new poll state, the
  events of the tick and the exception that leaves the handler, if any.
\<close>

definition update :: "env \<Rightarrow> app_state \<Rightarrow> tick_result" where
  "update e s =
     (let s1 = s\<lparr>iteration := iteration s + 1\<rparr> in
      if iteration s1 < update_cycle_len s1
      then \<lparr>state = s1, events = [], raised = None\<rparr>
      else
        let s2 = s1\<lparr>iteration := 0\<rparr>;
            s3 = s2\<lparr>update_cycle_len := min (2 * update_cycle_len s2) MAX_UPDATE_CYCLE_LEN\<rparr>
        in (case try_update e of
              (evs, Some x) \<Rightarrow> \<lparr>state = s3, events = evs, raised = Some x\<rparr>
            | (evs, None) \<Rightarrow>
                (case render_menu e of
                   Inl x \<Rightarrow> \<lparr>state = s3, events = evs @ [RenderMenu (Inl x)], raised = Some x\<rparr>
                 | Inr m \<Rightarrow> \<lparr>state = s3, events = evs @ [RenderMenu (Inr m)], raised = None\<rparr>)))"

text \<open>A tick executes a poll when it reaches the call \<open>self.client.update()\<close>.\<close>

definition polled :: "tick_result \<Rightarrow> bool" where
  "polled r = (ClientUpdate \<in> set (events r))"

section \<open>Presets\<close>

text \<open>
  The loop of \<open>update_preset\<close> over \<open>settings['presets']\<close>, with its two variables
  \<open>new_presets\<close> and \<open>is_found\<close>.
\<close>

fun update_preset_loop ::
  "preset list \<Rightarrow> preset \<Rightarrow> bool \<Rightarrow> preset list \<Rightarrow> bool \<Rightarrow> preset list \<times> bool" where
  "update_preset_loop [] p remove new_presets is_found = (new_presets, is_found)"
| "update_preset_loop (it # rest) p remove new_presets is_found =
     (if preset_id it = preset_id p
      then update_preset_loop rest p remove
             (if \<not> remove then new_presets @ [p] else new_presets) True
      else update_preset_loop rest p remove (new_presets @ [it]) is_found)"

text \<open>\<open>update_preset\<close> maps the stored list to the list written back to the settings.\<close>

definition update_preset :: "preset list \<Rightarrow> preset \<Rightarrow> bool \<Rightarrow> preset list" where
  "update_preset stored p remove =
     (case update_preset_loop stored p remove [] False of
        (new_presets, is_found) \<Rightarrow>
          if \<not> is_found \<and> \<not> remove then new_presets @ [p] else new_presets)"

section \<open>Runs of the poller\<close>

text \<open>
  An operation on the poll state is a tick of the timer (with the collaborators as they
  answer during it) or a call of \<open>set_active_mode\<close>. The poll state after a tick is the
  one \<open>update\<close> leaves, whether it returns or raises.
\<close>

datatype op = Tick env | SetActiveMode

fun step :: "app_state \<Rightarrow> op \<Rightarrow> app_state" where
  "step s (Tick e) = state (update e s)"
| "step s SetActiveMode = set_active_mode s"

definition run :: "op list \<Rightarrow> app_state \<Rightarrow> app_state" where
  "run ops s = foldl step s ops"

fun is_tick :: "op \<Rightarrow> bool" where
  "is_tick (Tick _) = True"
| "is_tick SetActiveMode = False"

text \<open>
  Read off the run, not off the counter: the number of ticks since the last tick that
  executed a poll (or since the start), carried in \<open>n\<close>.
\<close>

fun elapsed :: "op list \<Rightarrow> app_state \<Rightarrow> nat \<Rightarrow> nat" where
  "elapsed [] s n = n"
| "elapsed (Tick e # ops) s n =
     elapsed ops (state (update e s)) (if polled (update e s) then 0 else n + 1)"
| "elapsed (SetActiveMode # ops) s n = elapsed ops (set_active_mode s) n"

text \<open>The number of polls executed in a run.\<close>

fun poll_count :: "op list \<Rightarrow> app_state \<Rightarrow> nat" where
  "poll_count [] s = 0"
| "poll_count (Tick e # ops) s =
     (if polled (update e s) then 1 else 0) + poll_count ops (state (update e s))"
| "poll_count (SetActiveMode # ops) s = poll_count ops (set_active_mode s)"

text \<open>The cycle length in effect at each tick of a run that executes a poll, in order.\<close>

fun poll_cycle_lens :: "op list \<Rightarrow> app_state \<Rightarrow> int list" where
  "poll_cycle_lens [] s = []"
| "poll_cycle_lens (Tick e # ops) s =
     (if polled (update e s) then [update_cycle_len s] else [])
     @ poll_cycle_lens ops (state (update e s))"
| "poll_cycle_lens (SetActiveMode # ops) s = poll_cycle_lens ops (set_active_mode s)"

text \<open>The cycle length after each operation of a run, in order.\<close>

fun cycle_lens :: "op list \<Rightarrow> app_state \<Rightarrow> int list" where
  "cycle_lens [] s = []"
| "cycle_lens (x # ops) s = update_cycle_len (step s x) # cycle_lens ops (step s x)"

text \<open>
  A tick of a quiet period, used to run the definitions: no updates, every notification
  is delivered, no active jobs, no presets.
\<close>

definition quiet :: env where
  "quiet = \<lparr>client_update = Inr [], notification = (\<lambda>t s m. None), get_active_jobs = Inr [],
     fromisoformat = (\<lambda>t. Inl (ValueError ''Invalid isoformat string'')), presets = []\<rparr>"

text \<open>A tick on which \<open>self.client.update()\<close> raises \<open>AuthenticationError\<close>.\<close>

definition expired :: env where
  "expired = quiet\<lparr>client_update := Inl AuthenticationError\<rparr>"

text \<open>
  A tick on which the job list holds a job whose creation time is not in ISO format, so
  that \<open>datetime.fromisoformat\<close> raises \<open>ValueError\<close> on it.
\<close>

definition stale :: env where
  "stale = quiet\<lparr>get_active_jobs :=
     Inr [\<lparr>job_id = ''job-1'', description = None, status = ''running'',
           created_at = ''yesterday''\<rparr>]\<rparr>"





section \<open>Observations on the events of a tick\<close>

fun is_notification :: "event \<Rightarrow> bool" where
  "is_notification (Notification _ _ _) = True"
| "is_notification _ = False"

fun is_show_updates :: "event \<Rightarrow> bool" where
  "is_show_updates (ShowUpdates _) = True"
| "is_show_updates _ = False"






text \<open>The bounds that every reachable poll state keeps.\<close>

definition poll_inv :: "app_state \<Rightarrow> bool" where
  "poll_inv s =
     (1 \<le> update_cycle_len s \<and> update_cycle_len s \<le> MAX_UPDATE_CYCLE_LEN \<and> 0 \<le> iteration s)"

section \<open>One tick\<close>

lemma try_body_hd: "\<exists>evs. fst (try_body e) = ClientUpdate # evs"
  by (auto simp: try_body_def split: sum.splits prod.splits)

lemma try_update_hd: "\<exists>evs. fst (try_update e) = ClientUpdate # evs"
  using try_body_hd [of e]
  by (auto simp: try_update_def split: prod.splits option.splits)

lemma state_update:
  "state (update e s) =
     (if iteration s + 1 < update_cycle_len s then s\<lparr>iteration := iteration s + 1\<rparr>
      else s\<lparr>iteration := 0, update_cycle_len := min (2 * update_cycle_len s) MAX_UPDATE_CYCLE_LEN\<rparr>)"
  by (auto simp: update_def Let_def split: prod.splits option.splits sum.splits)

lemma polled_update: "polled (update e s) \<longleftrightarrow> \<not> iteration s + 1 < update_cycle_len s"
  using try_update_hd [of e]
  by (auto simp: polled_def update_def Let_def split: prod.splits option.splits sum.splits)

lemma update_skip:
  "iteration s + 1 < update_cycle_len s \<Longrightarrow>
     update e s = \<lparr>state = s\<lparr>iteration := iteration s + 1\<rparr>, events = [], raised = None\<rparr>"
  by (simp add: update_def Let_def)

lemma events_poll_hd:
  "\<not> iteration s + 1 < update_cycle_len s \<Longrightarrow> \<exists>evs. events (update e s) = ClientUpdate # evs"
  using try_update_hd [of e]
  by (auto simp: update_def Let_def split: prod.splits option.splits sum.splits)

text \<open>
  Claim C1. A tick first adds 1 to the iteration counter. If the new counter is below the
  cycle length, the tick returns with the counter incremented and nothing else: no
  event, no poll, no exception. Otherwise the counter is 0 and the cycle length is
  \<open>min (2 * update_cycle_len) MAX_UPDATE_CYCLE_LEN\<close> after the tick, and the first thing
  the tick does to the outside is the remote poll \<open>self.client.update()\<close>.
\<close>

theorem tick_skips_or_polls:
  "(iteration s + 1 < update_cycle_len s \<longrightarrow>
      update e s = \<lparr>state = s\<lparr>iteration := iteration s + 1\<rparr>, events = [], raised = None\<rparr>
      \<and> \<not> polled (update e s))
   \<and> (\<not> iteration s + 1 < update_cycle_len s \<longrightarrow>
      iteration (state (update e s)) = 0
      \<and> update_cycle_len (state (update e s)) = min (2 * update_cycle_len s) MAX_UPDATE_CYCLE_LEN
      \<and> polled (update e s)
      \<and> (\<exists>evs. events (update e s) = ClientUpdate # evs))"
proof (cases "iteration s + 1 < update_cycle_len s")
  case True
  have "\<not> polled (update e s)"
    using True by (simp add: polled_update)
  with True update_skip [of s e] show ?thesis
    by simp
next
  case False
  have "polled (update e s)"
    using False by (simp add: polled_update)
  with False events_poll_hd [of s e] show ?thesis
    by (simp add: state_update)
qed

text \<open>
  Both branches at concrete states: a tick at counter 0 and cycle length 2 skips, a tick
  in the initial state polls.
\<close>

theorem tick_skips_or_polls_witness:
  "update quiet \<lparr>iteration = 0, update_cycle_len = 2\<rparr> =
     \<lparr>state = \<lparr>iteration = 1, update_cycle_len = 2\<rparr>, events = [], raised = None\<rparr>
   \<and> iteration (state (update quiet init)) = 0
   \<and> update_cycle_len (state (update quiet init)) = 2
   \<and> polled (update quiet init)"
  using tick_skips_or_polls [of "\<lparr>iteration = 0, update_cycle_len = 2\<rparr>" quiet]
    tick_skips_or_polls [of init quiet]
  by (simp add: init_def MAX_UPDATE_CYCLE_LEN_def)

section \<open>Reachable poll states\<close>

lemma run_Nil: "run [] s = s"
  by (simp add: run_def)

lemma run_Cons: "run (x # ops) s = run ops (step s x)"
  by (simp add: run_def)

lemma run_snoc: "run (ops @ [x]) s = step (run ops s) x"
  by (simp add: run_def)

lemma poll_inv_step: "poll_inv s \<Longrightarrow> poll_inv (step s x)"
  by (cases x) (auto simp: poll_inv_def state_update set_active_mode_def MAX_UPDATE_CYCLE_LEN_def)

lemma poll_inv_run: "poll_inv s \<Longrightarrow> poll_inv (run ops s)"
  by (induction ops arbitrary: s) (simp_all add: run_Nil run_Cons poll_inv_step)

lemma poll_inv_init: "poll_inv init"
  by (simp add: poll_inv_def init_def MAX_UPDATE_CYCLE_LEN_def)

text \<open>
  Claim C4. In every state reached from the initial one by ticks and calls of
  \<open>set_active_mode\<close>, a call of \<open>set_active_mode\<close> makes the very next tick execute a
  poll, whatever the cycle length and the counter were before.
\<close>

theorem poll_after_set_active_mode: "polled (update e (set_active_mode (run ops init)))"
  using poll_inv_run [OF poll_inv_init, of ops]
  by (simp add: polled_update set_active_mode_def poll_inv_def)

text \<open>
  Claim C5. After any sequence of ticks and calls of \<open>set_active_mode\<close> from the
  initial state, the cycle length is at most \<open>MAX_UPDATE_CYCLE_LEN\<close>, which is 30.
\<close>

theorem cycle_len_bounded: "update_cycle_len (run ops init) \<le> MAX_UPDATE_CYCLE_LEN \<and> MAX_UPDATE_CYCLE_LEN = 30"
  using poll_inv_run [OF poll_inv_init, of ops]
  by (simp add: poll_inv_def MAX_UPDATE_CYCLE_LEN_def)

section \<open>The backoff schedule\<close>

lemma min_double: "min (2 * min (2 ^ m) 30) (30::int) = min (2 ^ Suc m) 30"
  by (simp add: min_def)

lemma cycle_ticks:
  "list_all is_tick ops \<Longrightarrow> update_cycle_len s = min (2 ^ m) MAX_UPDATE_CYCLE_LEN \<Longrightarrow>
     update_cycle_len (run ops s) = min (2 ^ (m + poll_count ops s)) MAX_UPDATE_CYCLE_LEN"
proof (induction ops arbitrary: s m)
  case Nil
  then show ?case by (simp add: run_Nil)
next
  case (Cons x ops)
  then obtain e where x: "x = Tick e" by (cases x) auto
  show ?case
  proof (cases "polled (update e s)")
    case True
    have "update_cycle_len (state (update e s)) = min (2 * update_cycle_len s) MAX_UPDATE_CYCLE_LEN"
      using True by (simp add: polled_update state_update)
    then have "update_cycle_len (state (update e s)) = min (2 ^ Suc m) MAX_UPDATE_CYCLE_LEN"
      using min_double [of m] by (simp add: Cons.prems(2) MAX_UPDATE_CYCLE_LEN_def)
    from Cons.IH [OF _ this] Cons.prems(1) True show ?thesis
      by (simp add: x run_Cons)
  next
    case False
    have "update_cycle_len (state (update e s)) = min (2 ^ m) MAX_UPDATE_CYCLE_LEN"
      using False Cons.prems(2) by (simp add: polled_update state_update)
    from Cons.IH [OF _ this] Cons.prems(1) False show ?thesis
      by (simp add: x run_Cons)
  qed
qed

lemma poll_cycle_lens_ticks:
  "list_all is_tick ops \<Longrightarrow> update_cycle_len s = min (2 ^ m) MAX_UPDATE_CYCLE_LEN \<Longrightarrow>
     poll_cycle_lens ops s =
       map (\<lambda>j. min (2 ^ j) MAX_UPDATE_CYCLE_LEN) [m ..< m + poll_count ops s]"
proof (induction ops arbitrary: s m)
  case Nil
  then show ?case by simp
next
  case (Cons x ops)
  then obtain e where x: "x = Tick e" by (cases x) auto
  show ?case
  proof (cases "polled (update e s)")
    case True
    have "update_cycle_len (state (update e s)) = min (2 * update_cycle_len s) MAX_UPDATE_CYCLE_LEN"
      using True by (simp add: polled_update state_update)
    then have "update_cycle_len (state (update e s)) = min (2 ^ Suc m) MAX_UPDATE_CYCLE_LEN"
      using min_double [of m] by (simp add: Cons.prems(2) MAX_UPDATE_CYCLE_LEN_def)
    from Cons.IH [OF _ this] Cons.prems(1)
    have rest: "poll_cycle_lens ops (state (update e s)) =
        map (\<lambda>j. min (2 ^ j) MAX_UPDATE_CYCLE_LEN)
          [Suc m ..< Suc m + poll_count ops (state (update e s))]"
      by simp
    have upt: "[m ..< m + poll_count (x # ops) s] =
        m # [Suc m ..< Suc m + poll_count ops (state (update e s))]"
      using True by (subst upt_rec) (simp add: x)
    have "poll_cycle_lens (x # ops) s =
        update_cycle_len s # poll_cycle_lens ops (state (update e s))"
      using True by (simp add: x)
    then show ?thesis
      unfolding upt rest by (simp add: Cons.prems(2))
  next
    case False
    have "update_cycle_len (state (update e s)) = min (2 ^ m) MAX_UPDATE_CYCLE_LEN"
      using False Cons.prems(2) by (simp add: polled_update state_update)
    from Cons.IH [OF _ this] Cons.prems(1) False show ?thesis
      by (simp add: x)
  qed
qed

lemma cycle_lens_sorted:
  "list_all is_tick ops \<Longrightarrow> poll_inv s \<Longrightarrow> sorted (update_cycle_len s # cycle_lens ops s)"
proof (induction ops arbitrary: s)
  case Nil
  then show ?case by simp
next
  case (Cons x ops)
  then obtain e where x: "x = Tick e" by (cases x) auto
  have le: "update_cycle_len s \<le> update_cycle_len (step s x)"
    using Cons.prems(2) by (simp add: x state_update poll_inv_def MAX_UPDATE_CYCLE_LEN_def)
  have "sorted (update_cycle_len (step s x) # cycle_lens ops (step s x))"
    using Cons.IH Cons.prems poll_inv_step by simp
  with le show ?case by auto
qed

lemma backoff_values:
  "map (\<lambda>j. min (2 ^ j) (30::int)) [0 ..< k] = take k ([1, 2, 4, 8, 16] @ replicate (k - 5) 30)"
proof (rule nth_equalityI)
  show "length (map (\<lambda>j. min (2 ^ j) (30::int)) [0 ..< k])
      = length (take k ([1, 2, 4, 8, 16] @ replicate (k - 5) (30::int)))"
    by auto
next
  fix i assume "i < length (map (\<lambda>j. min (2 ^ j) (30::int)) [0 ..< k])"
  then have i: "i < k" by simp
  show "map (\<lambda>j. min (2 ^ j) (30::int)) [0 ..< k] ! i
      = take k ([1, 2, 4, 8, 16] @ replicate (k - 5) (30::int)) ! i"
  proof (cases "i < 5")
    case True
    then consider "i = 0" | "i = 1" | "i = 2" | "i = 3" | "i = 4" by linarith
    then show ?thesis using i by cases (simp_all add: nth_append)
  next
    case False
    then have "(2::int) ^ 5 \<le> 2 ^ i" by (intro power_increasing) auto
    then show ?thesis using i False by (simp add: nth_append)
  qed
qed

text \<open>
  Claim C2. In a run of ticks only, from the initial state: the cycle length never
  decreases from one tick to the next; after \<open>k\<close> executed polls it is
  \<open>min (2 ^ k) MAX_UPDATE_CYCLE_LEN\<close>; and with the maximum 30 the cycle lengths in
  effect at the successive executed polls are 1, 2, 4, 8, 16, 30, 30, 30, ...
\<close>

theorem backoff_schedule:
  assumes "list_all is_tick ops"
  shows "sorted (update_cycle_len init # cycle_lens ops init)
    \<and> update_cycle_len (run ops init) = min (2 ^ poll_count ops init) MAX_UPDATE_CYCLE_LEN
    \<and> MAX_UPDATE_CYCLE_LEN = 30
    \<and> poll_cycle_lens ops init =
        take (poll_count ops init) ([1, 2, 4, 8, 16] @ replicate (poll_count ops init - 5) 30)"
proof -
  have c0: "update_cycle_len init = min (2 ^ 0) MAX_UPDATE_CYCLE_LEN"
    by (simp add: init_def MAX_UPDATE_CYCLE_LEN_def)
  have "poll_cycle_lens ops init = map (\<lambda>j. min (2 ^ j) 30) [0 ..< poll_count ops init]"
    using poll_cycle_lens_ticks [OF assms c0] by (simp add: MAX_UPDATE_CYCLE_LEN_def)
  then have "poll_cycle_lens ops init =
        take (poll_count ops init) ([1, 2, 4, 8, 16] @ replicate (poll_count ops init - 5) 30)"
    by (simp only: backoff_values)
  moreover have "sorted (update_cycle_len init # cycle_lens ops init)"
    using cycle_lens_sorted [OF assms poll_inv_init] .
  moreover have "update_cycle_len (run ops init) = min (2 ^ poll_count ops init) MAX_UPDATE_CYCLE_LEN"
    using cycle_ticks [OF assms c0] by simp
  ultimately show ?thesis by (simp add: MAX_UPDATE_CYCLE_LEN_def)
qed

text \<open>
  The first 121 ticks of a quiet period execute eight polls, at the cycle lengths
  1, 2, 4, 8, 16, 30, 30, 30.
\<close>

theorem backoff_schedule_witness:
  "list_all is_tick (replicate 121 (Tick quiet))
   \<and> poll_cycle_lens (replicate 121 (Tick quiet)) init = [1, 2, 4, 8, 16, 30, 30, 30]
   \<and> update_cycle_len (run (replicate 121 (Tick quiet)) init) = 30"
  using backoff_schedule [of "replicate 121 (Tick quiet)"]
  by code_simp

section \<open>When a poll executes\<close>

lemma iteration_elapsed:
  "iteration s = int n \<Longrightarrow> iteration (run ops s) = int (elapsed ops s n)"
proof (induction ops arbitrary: s n)
  case Nil
  then show ?case by (simp add: run_Nil)
next
  case (Cons x ops)
  show ?case
  proof (cases x)
    case (Tick e)
    have "iteration (state (update e s)) = int (if polled (update e s) then 0 else n + 1)"
      using Cons.prems by (simp add: polled_update state_update)
    from Cons.IH [OF this] show ?thesis
      by (simp add: Tick run_Cons)
  next
    case SetActiveMode
    have "iteration (set_active_mode s) = int n"
      using Cons.prems by (simp add: set_active_mode_def)
    from Cons.IH [OF this] show ?thesis
      by (simp add: SetActiveMode run_Cons)
  qed
qed

lemma after_tick_lt:
  "poll_inv s \<Longrightarrow> iteration (state (update e s)) < update_cycle_len (state (update e s))"
  by (simp add: state_update poll_inv_def MAX_UPDATE_CYCLE_LEN_def)

lemma at_rest_lt:
  "ops = [] \<or> is_tick (last ops) \<Longrightarrow>
     iteration (run ops init) < update_cycle_len (run ops init)"
proof (cases ops rule: rev_cases)
  case Nil
  then show ?thesis by (simp add: run_Nil init_def)
next
  case (snoc ops' x)
  assume "ops = [] \<or> is_tick (last ops)"
  with snoc obtain e where x: "x = Tick e" by (cases x) auto
  show ?thesis
    using after_tick_lt [OF poll_inv_run [OF poll_inv_init, of ops'], of e]
    by (simp add: snoc x run_snoc)
qed

lemma after_reset:
  assumes "ops \<noteq> []" and "\<not> is_tick (last ops)"
  shows "update_cycle_len (run ops init) = 1 \<and> 0 \<le> iteration (run ops init)"
proof -
  from assms obtain ops' where ops: "ops = ops' @ [SetActiveMode]"
    by (cases ops rule: rev_cases) (auto elim: is_tick.elims)
  have "update_cycle_len (run ops init) = 1"
    by (simp add: ops run_snoc set_active_mode_def)
  moreover have "0 \<le> iteration (run ops init)"
    using poll_inv_run [OF poll_inv_init, of ops] by (simp add: poll_inv_def)
  ultimately show ?thesis by simp
qed

text \<open>
  Claim C3, as stated, fails: after \<open>set_active_mode\<close> the counter keeps its value, so
  the next tick polls although the number of ticks since the last poll (here 2) differs
  from the cycle length in effect (1).
\<close>

theorem poll_elapsed_equals_cycle_counterexample:
  "polled (update quiet (run [Tick quiet, Tick quiet, SetActiveMode] init))
   \<and> int (elapsed [Tick quiet, Tick quiet, SetActiveMode] init 0) + 1
       \<noteq> update_cycle_len (run [Tick quiet, Tick quiet, SetActiveMode] init)"
  by code_simp

text \<open>
  Claim C3, amended. After any run from the initial state, the next tick executes a
  poll if and only if the number of ticks since the last executed poll (or since the
  start), this tick included, has reached the cycle length in effect. Whenever no
  \<open>set_active_mode\<close> has come since the previous tick (the run is empty or ends with
  a tick), that is: equals the cycle length. A tick that directly follows
  \<open>set_active_mode\<close> polls, at cycle length 1, whatever the number of ticks since the
  last poll. A tick that does not poll only increments the counter.
\<close>

theorem poll_when_elapsed_reaches_cycle:
  "(polled (update e (run ops init)) \<longleftrightarrow>
      update_cycle_len (run ops init) \<le> int (elapsed ops init 0) + 1)
   \<and> (ops = [] \<or> is_tick (last ops) \<longrightarrow>
      (polled (update e (run ops init)) \<longleftrightarrow>
         int (elapsed ops init 0) + 1 = update_cycle_len (run ops init)))
   \<and> (ops \<noteq> [] \<and> \<not> is_tick (last ops) \<longrightarrow>
      polled (update e (run ops init)) \<and> update_cycle_len (run ops init) = 1)
   \<and> (\<not> polled (update e (run ops init)) \<longrightarrow>
      update e (run ops init) =
        \<lparr>state = (run ops init)\<lparr>iteration := iteration (run ops init) + 1\<rparr>,
         events = [], raised = None\<rparr>)"
proof -
  have it: "iteration (run ops init) = int (elapsed ops init 0)"
    by (rule iteration_elapsed) (simp add: init_def)
  have a: "polled (update e (run ops init)) \<longleftrightarrow>
      update_cycle_len (run ops init) \<le> int (elapsed ops init 0) + 1"
    using it by (simp add: polled_update not_less)
  have b: "polled (update e (run ops init)) \<longleftrightarrow>
         int (elapsed ops init 0) + 1 = update_cycle_len (run ops init)"
    if "ops = [] \<or> is_tick (last ops)"
    using a at_rest_lt [OF that] it by auto
  have r: "polled (update e (run ops init)) \<and> update_cycle_len (run ops init) = 1"
    if "ops \<noteq> []" and "\<not> is_tick (last ops)"
    using after_reset [OF that] by (simp add: polled_update)
  have c: "update e (run ops init) =
        \<lparr>state = (run ops init)\<lparr>iteration := iteration (run ops init) + 1\<rparr>,
         events = [], raised = None\<rparr>"
    if "\<not> polled (update e (run ops init))"
    using that by (intro update_skip) (simp add: polled_update)
  from a b r c show ?thesis by blast
qed

text \<open>
  After tick, \<open>set_active_mode\<close>, tick, tick, the next tick polls, two ticks
  after the last poll at cycle length 2; directly after \<open>set_active_mode\<close> the next
  tick polls at cycle length 1; after one quiet tick the second one is a no-op.
\<close>

theorem poll_when_elapsed_reaches_cycle_witness:
  "is_tick (last [Tick quiet, SetActiveMode, Tick quiet, Tick quiet])
   \<and> polled (update quiet (run [Tick quiet, SetActiveMode, Tick quiet, Tick quiet] init))
   \<and> int (elapsed [Tick quiet, SetActiveMode, Tick quiet, Tick quiet] init 0) + 1 =
       update_cycle_len (run [Tick quiet, SetActiveMode, Tick quiet, Tick quiet] init)
   \<and> \<not> is_tick (last [Tick quiet, Tick quiet, SetActiveMode])
   \<and> polled (update quiet (run [Tick quiet, Tick quiet, SetActiveMode] init))
   \<and> update_cycle_len (run [Tick quiet, Tick quiet, SetActiveMode] init) = 1
   \<and> \<not> polled (update quiet (run [Tick quiet] init))
   \<and> update quiet (run [Tick quiet] init) =
       \<lparr>state = \<lparr>iteration = 1, update_cycle_len = 2\<rparr>, events = [], raised = None\<rparr>"
proof -
  have p: "polled (update quiet (run [Tick quiet, SetActiveMode, Tick quiet, Tick quiet] init))"
    "\<not> polled (update quiet (run [Tick quiet] init))"
    by code_simp+
  have t: "is_tick (last [Tick quiet, SetActiveMode, Tick quiet, Tick quiet])"
    "is_tick (last [Tick quiet])"
    "\<not> is_tick (last [Tick quiet, Tick quiet, SetActiveMode])"
    by simp_all
  have r: "run [Tick quiet] init = \<lparr>iteration = 0, update_cycle_len = 2\<rparr>"
    by code_simp
  from poll_when_elapsed_reaches_cycle [of quiet "[Tick quiet, SetActiveMode, Tick quiet, Tick quiet]"]
    poll_when_elapsed_reaches_cycle [of quiet "[Tick quiet]"] poll_when_elapsed_reaches_cycle [of quiet "[Tick quiet, Tick quiet, SetActiveMode]"] p t r
  show ?thesis by simp
qed

section \<open>The invariant of the poll state\<close>

text \<open>
  Claim C6, as stated, fails: \<open>set_active_mode\<close> sets the cycle length to 1 and leaves
  the counter, here at 1, which is not below the cycle length.
\<close>

theorem iteration_below_cycle_counterexample:
  "\<not> iteration (run [Tick quiet, Tick quiet, SetActiveMode] init)
       < update_cycle_len (run [Tick quiet, Tick quiet, SetActiveMode] init)"
  by code_simp

text \<open>
  Claim C6, amended. In every state reached from the initial one by ticks and calls of
  \<open>set_active_mode\<close>, \<open>1 \<le> update_cycle_len \<le> MAX_UPDATE_CYCLE_LEN\<close> and
  \<open>0 \<le> iteration\<close>; the counter is below the cycle length in the initial state and
  after every tick; and the counter is 0 after a tick that executes a poll.
\<close>

theorem poll_state_invariant:
  "1 \<le> update_cycle_len (run ops init)
   \<and> update_cycle_len (run ops init) \<le> MAX_UPDATE_CYCLE_LEN
   \<and> 0 \<le> iteration (run ops init)
   \<and> (ops = [] \<or> is_tick (last ops) \<longrightarrow>
        iteration (run ops init) < update_cycle_len (run ops init))
   \<and> (polled (update e (run ops init)) \<longrightarrow> iteration (state (update e (run ops init))) = 0)"
  using poll_inv_run [OF poll_inv_init, of ops] at_rest_lt [of ops]
  by (simp add: poll_inv_def polled_update state_update)

text \<open>
  After two quiet ticks the counter is 1 and the cycle length 2; the next tick polls and
  leaves the counter at 0.
\<close>

theorem poll_state_invariant_witness:
  "is_tick (last [Tick quiet, Tick quiet])
   \<and> iteration (run [Tick quiet, Tick quiet] init) < update_cycle_len (run [Tick quiet, Tick quiet] init)
   \<and> polled (update quiet (run [Tick quiet, Tick quiet] init))
   \<and> iteration (state (update quiet (run [Tick quiet, Tick quiet] init))) = 0"
  using poll_state_invariant [of "[Tick quiet, Tick quiet]" quiet]
  by (simp add: run_def polled_update state_update init_def MAX_UPDATE_CYCLE_LEN_def)

section \<open>Failures during a tick\<close>

lemma update_notification_is: "is_notification (update_notification u)"
  by (cases u) simp_all

lemma show_updates_notifications: "list_all is_notification (fst (show_updates e us))"
  by (induction us) (auto simp: update_notification_is split: option.splits prod.splits)

lemma show_updates_raised:
  "snd (show_updates e us) = Some x \<Longrightarrow> \<exists>t u m. notification e t u m = Some x"
proof (induction us)
  case Nil
  then show ?case by simp
next
  case (Cons a us)
  show ?case
  proof (cases "notify e (update_notification a)")
    case None
    with Cons show ?thesis by (auto split: prod.splits)
  next
    case (Some y)
    with Cons.prems have "y = x" by simp
    with Some show ?thesis by (cases a) auto
  qed
qed

lemma try_update_auth:
  "client_update e = Inl AuthenticationError \<Longrightarrow>
     try_update e = ([ClientUpdate, auth_notification], notify e auth_notification)"
  by (simp add: try_update_def try_body_def)

lemma events_auth:
  "client_update e = Inl AuthenticationError \<Longrightarrow> \<not> iteration s + 1 < update_cycle_len s \<Longrightarrow>
     events (update e s) = [ClientUpdate, auth_notification]
     \<or> events (update e s) = [ClientUpdate, auth_notification, RenderMenu (render_menu e)]"
  by (auto simp: update_def Let_def try_update_auth split: option.splits sum.splits)

text \<open>
  Claim C7. On a tick that executes a poll in which \<open>self.client.update()\<close> raises
  \<open>AuthenticationError\<close>: \<open>show_updates\<close> is not called; exactly one notification is
  issued, the one for authentication errors, with the message
  \<open>You may be using the wrong token\<close>, which no notification of an update equals; and the
  poll state has advanced as for any executed poll, the counter at 0 and the cycle length
  doubled and capped.
\<close>

theorem authentication_error_reported:
  assumes "client_update e = Inl AuthenticationError"
    and "\<not> iteration s + 1 < update_cycle_len s"
  shows "polled (update e s)
    \<and> \<not> list_ex is_show_updates (events (update e s))
    \<and> filter is_notification (events (update e s)) = [auth_notification]
    \<and> auth_notification =
        Notification ''Failed to get updates'' [] ''You may be using the wrong token''
    \<and> (\<forall>u. update_notification u \<noteq> auth_notification)
    \<and> state (update e s) =
        s\<lparr>iteration := 0,
          update_cycle_len := min (2 * update_cycle_len s) MAX_UPDATE_CYCLE_LEN\<rparr>"
proof -
  have "polled (update e s)"
    using assms(2) by (simp add: polled_update)
  moreover have "\<not> list_ex is_show_updates (events (update e s))"
    using events_auth [OF assms] by (auto simp: auth_notification_def)
  moreover have "filter is_notification (events (update e s)) = [auth_notification]"
    using events_auth [OF assms] by (auto simp: auth_notification_def)
  moreover have "update_notification u \<noteq> auth_notification" for u
    by (cases u) (simp_all add: auth_notification_def)
  moreover have "state (update e s) =
        s\<lparr>iteration := 0,
          update_cycle_len := min (2 * update_cycle_len s) MAX_UPDATE_CYCLE_LEN\<rparr>"
    using assms(2) by (simp add: state_update)
  ultimately show ?thesis
    by (simp add: auth_notification_def)
qed

text \<open>
  The initial state with a client whose update raises \<open>AuthenticationError\<close>.
\<close>

theorem authentication_error_reported_witness:
  "client_update expired = Inl AuthenticationError
   \<and> \<not> iteration init + 1 < update_cycle_len init
   \<and> events (update expired init) =
       [ClientUpdate,
        Notification ''Failed to get updates'' [] ''You may be using the wrong token'',
        RenderMenu (render_menu expired)]
   \<and> state (update expired init) = \<lparr>iteration = 0, update_cycle_len = 2\<rparr>"
proof -
  have h1: "client_update expired = Inl AuthenticationError"
    by (simp add: expired_def)
  have h2: "\<not> iteration init + 1 < update_cycle_len init"
    by (simp add: init_def)
  have "events (update expired init) =
       [ClientUpdate,
        Notification ''Failed to get updates'' [] ''You may be using the wrong token'',
        RenderMenu (render_menu expired)]"
    by code_simp
  with authentication_error_reported [OF h1 h2] h1 h2 show ?thesis
    by (simp add: init_def MAX_UPDATE_CYCLE_LEN_def)
qed

lemma handle_raised:
  "snd (handle e x) = Some y \<Longrightarrow>
     y = NonException \<or> (\<exists>m. notification e ''Failed to get updates'' [] m = Some y)"
  by (cases x) (auto simp: auth_notification_def)

lemma try_update_raised:
  "snd (try_update e) = Some y \<Longrightarrow>
     y = NonException \<or> (\<exists>m. notification e ''Failed to get updates'' [] m = Some y)"
proof -
  assume r: "snd (try_update e) = Some y"
  obtain evs b where tb: "try_body e = (evs, b)" by (cases "try_body e")
  show ?thesis
  proof (cases b)
    case None
    with tb r show ?thesis by (simp add: try_update_def)
  next
    case (Some x)
    with tb r have "snd (handle e x) = Some y"
      by (simp add: try_update_def split: prod.splits)
    then show ?thesis by (rule handle_raised)
  qed
qed

lemma raised_update:
  "raised (update e s) = Some x \<Longrightarrow> snd (try_update e) = Some x \<or> render_menu e = Inl x"
  by (auto simp: update_def Let_def split: if_splits prod.splits option.splits sum.splits)

text \<open>
  Claim C8, as stated, fails: \<open>render_menu\<close> runs after the \<open>try\<close> statement, so
  the \<open>ValueError\<close> that \<open>datetime.fromisoformat\<close> raises there on a creation time
  that is not in ISO format leaves the tick handler.
\<close>

theorem render_menu_error_escapes_counterexample:
  "raised (update stale init) = Some (ValueError ''Invalid isoformat string'')"
  by code_simp

text \<open>
  Claim C8, amended. An exception leaves the tick handler only if it is not an
  \<open>Exception\<close>, or the notification \<open>Failed to get updates\<close> inside an
  \<open>except\<close> clause raised it, or \<open>render_menu\<close> raised it; every other error raised by
  \<open>self.client.update()\<close> or by \<open>show_updates\<close> is caught in the tick handler.
\<close>

theorem escaping_exceptions:
  assumes "raised (update e s) = Some x"
  shows "x = NonException
    \<or> (\<exists>m. notification e ''Failed to get updates'' [] m = Some x)
    \<or> render_menu e = Inl x"
  using raised_update [OF assms] try_update_raised [of e x] by blast

text \<open>
  The exception of the stale job list is the one \<open>render_menu\<close> raises.
\<close>

theorem escaping_exceptions_witness:
  "raised (update stale init) = Some (ValueError ''Invalid isoformat string'')
   \<and> render_menu stale = Inl (ValueError ''Invalid isoformat string'')"
proof -
  have r: "raised (update stale init) = Some (ValueError ''Invalid isoformat string'')"
    by code_simp
  have n: "notification stale t u m = None" for t u m
    by (simp add: stale_def quiet_def)
  from escaping_exceptions [OF r] n r show ?thesis by simp
qed

section \<open>Rendering after a poll\<close>
























section \<open>Updating the presets\<close>

lemma update_preset_loop_eq:
  "update_preset_loop stored p remove acc found =
     (acc @ (if remove then filter (\<lambda>it. preset_id it \<noteq> preset_id p) stored
             else map (\<lambda>it. if preset_id it = preset_id p then p else it) stored),
      found \<or> list_ex (\<lambda>it. preset_id it = preset_id p) stored)"
  by (induction stored arbitrary: acc found) auto

text \<open>
  Claim C10. Without \<open>remove\<close>, \<open>update_preset\<close> replaces every stored preset
  whose id is that of \<open>p\<close> by \<open>p\<close>, in place, and appends \<open>p\<close> when no stored
  preset has its id; with \<open>remove\<close> it drops every stored preset whose id is that of
  \<open>p\<close>. All other presets stay as they are, in their order.
\<close>

theorem update_preset_result:
  "update_preset stored p False =
     (if list_ex (\<lambda>it. preset_id it = preset_id p) stored
      then map (\<lambda>it. if preset_id it = preset_id p then p else it) stored
      else stored @ [p])
   \<and> update_preset stored p True = filter (\<lambda>it. preset_id it \<noteq> preset_id p) stored"
proof -
  have "list_ex (\<lambda>it. preset_id it = preset_id p) stored \<or>
      map (\<lambda>it. if preset_id it = preset_id p then p else it) stored = stored"
    by (induction stored) auto
  then show ?thesis
    by (auto simp: update_preset_def update_preset_loop_eq)
qed

text \<open>
  Replacing, appending and removing on a list of two presets.
\<close>

theorem update_preset_result_witness:
  "update_preset
     [\<lparr>preset_id = ''1'', name = ''a'', job_params = ''x''\<rparr>,
      \<lparr>preset_id = ''2'', name = ''b'', job_params = ''y''\<rparr>]
     \<lparr>preset_id = ''1'', name = ''c'', job_params = ''z''\<rparr> False =
     [\<lparr>preset_id = ''1'', name = ''c'', job_params = ''z''\<rparr>,
      \<lparr>preset_id = ''2'', name = ''b'', job_params = ''y''\<rparr>]
   \<and> update_preset
     [\<lparr>preset_id = ''1'', name = ''a'', job_params = ''x''\<rparr>]
     \<lparr>preset_id = ''3'', name = ''c'', job_params = ''z''\<rparr> False =
     [\<lparr>preset_id = ''1'', name = ''a'', job_params = ''x''\<rparr>,
      \<lparr>preset_id = ''3'', name = ''c'', job_params = ''z''\<rparr>]
   \<and> update_preset
     [\<lparr>preset_id = ''1'', name = ''a'', job_params = ''x''\<rparr>,
      \<lparr>preset_id = ''2'', name = ''b'', job_params = ''y''\<rparr>]
     \<lparr>preset_id = ''1'', name = ''c'', job_params = ''z''\<rparr> True =
     [\<lparr>preset_id = ''2'', name = ''b'', job_params = ''y''\<rparr>]"
  using update_preset_result [of "[\<lparr>preset_id = ''1'', name = ''a'', job_params = ''x''\<rparr>,
      \<lparr>preset_id = ''2'', name = ''b'', job_params = ''y''\<rparr>]"
     "\<lparr>preset_id = ''1'', name = ''c'', job_params = ''z''\<rparr>"]
    update_preset_result [of "[\<lparr>preset_id = ''1'', name = ''a'', job_params = ''x''\<rparr>]"
     "\<lparr>preset_id = ''3'', name = ''c'', job_params = ''z''\<rparr>"]
  by simp

end
